theory Spec2Isabelle
  imports Main
begin

section \<open>The preprocessor fragment used by \<^verbatim>\<open>input-defs.h\<close>\<close>

text \<open>
  \<^verbatim>\<open>input-defs.h\<close> is a list of preprocessor directives: one \<^verbatim>\<open>#include\<close> and 24 groups
  \<^verbatim>\<open>#ifndef N / #define N v / #endif\<close>. What it computes is a macro table. Every macro the
  header defines is an object-like macro whose body is one integer constant. A macro
  that is defined before the header can have any body, and \<^verbatim>\<open>#ifndef\<close> asks only whether
  a name is defined: a body is an integer constant, or any other replacement list, kept
  as its spelling (empty, an identifier, an expression).
\<close>

datatype body =
    Num int
  | Tokens string

type_synonym macro_env = "string \<rightharpoonup> body"

text \<open>
  One directive per source line. \<open>Undef\<close> does not occur in the header; it is part of the
  language so that the absence of \<^verbatim>\<open>#undef\<close> is a property of the header and not of the
  model.
\<close>

datatype directive =
    Include string
  | Ifndef string
  | Define string int
  | Undef string
  | Endif

datatype error =
    NoSuchFile string
  | Redefined string
  | EndifWithoutIf
  | UnterminatedIf

text \<open>
  \<^verbatim>\<open><linux/input.h>\<close> is a header of the platform, not of this repository. What including a
  platform header does to the macro table is a parameter of the model: it either fails
  or returns the table it leaves.
\<close>

type_synonym platform = "string \<Rightarrow> macro_env \<Rightarrow> error + macro_env"

text \<open>
  The preprocessor's state: the macro table and the stack of open conditional groups
  (innermost first). An entry is \<open>True\<close> when the lines of its group are processed and
  \<open>False\<close> when they are skipped.
\<close>

record pp_state =
  macros :: macro_env
  conds :: "bool list"

fun active :: "bool list \<Rightarrow> bool" where
  "active [] = True"
| "active (b # bs) = b"

text \<open>
  One line. In a skipped group only the nesting of conditionals is tracked. A
  \<^verbatim>\<open>#define\<close> of a name that is already defined with another body is the redefinition
  conflict (C11 6.10.3p2); with the same body it is allowed and changes nothing.
\<close>

fun process_line :: "platform \<Rightarrow> directive \<Rightarrow> pp_state \<Rightarrow> error + pp_state" where
  "process_line P (Include h) s =
     (if active (conds s)
      then (case P h (macros s) of
              Inl err \<Rightarrow> Inl err
            | Inr e \<Rightarrow> Inr (s\<lparr>macros := e\<rparr>))
      else Inr s)"
| "process_line P (Ifndef n) s =
     Inr (s\<lparr>conds := (active (conds s) \<and> macros s n = None) # conds s\<rparr>)"
| "process_line P (Define n v) s =
     (if active (conds s)
      then (case macros s n of
              None \<Rightarrow> Inr (s\<lparr>macros := (macros s)(n \<mapsto> Num v)\<rparr>)
            | Some w \<Rightarrow> if w = Num v then Inr s else Inl (Redefined n))
      else Inr s)"
| "process_line P (Undef n) s =
     (if active (conds s) then Inr (s\<lparr>macros := (macros s)(n := None)\<rparr>) else Inr s)"
| "process_line P Endif s =
     (case conds s of
        [] \<Rightarrow> Inl EndifWithoutIf
      | b # bs \<Rightarrow> Inr (s\<lparr>conds := bs\<rparr>))"

text \<open>Lines are processed in order; the first error stops the translation.\<close>

fun process_lines :: "platform \<Rightarrow> directive list \<Rightarrow> pp_state \<Rightarrow> error + pp_state" where
  "process_lines P [] s = Inr s"
| "process_lines P (l # ls) s =
     (case process_line P l s of
        Inl err \<Rightarrow> Inl err
      | Inr s' \<Rightarrow> process_lines P ls s')"

text \<open>
  Including a file in a macro table: its lines are processed from an empty conditional
  stack, and every conditional group it opens must be closed at its end.
\<close>

definition start :: "macro_env \<Rightarrow> pp_state" where
  "start e = \<lparr>macros = e, conds = []\<rparr>"

definition preprocess :: "platform \<Rightarrow> directive list \<Rightarrow> macro_env \<Rightarrow> error + macro_env" where
  "preprocess P ls e =
     (case process_lines P ls (start e) of
        Inl err \<Rightarrow> Inl err
      | Inr s \<Rightarrow> if conds s = [] then Inr (macros s) else Inl UnterminatedIf)"

section \<open>The header\<close>

text \<open>Lines 3 to 74 of \<^verbatim>\<open>input-defs.h\<close>: the 24 guarded definitions, line by line.\<close>

definition guarded_definitions :: "directive list" where
  "guarded_definitions =
    [Ifndef ''BTN_EAST'',
     Define ''BTN_EAST'' 0x131,
     Endif,
     Ifndef ''BTN_SOUTH'',
     Define ''BTN_SOUTH'' 0x130,
     Endif,
     Ifndef ''BTN_NORTH'',
     Define ''BTN_NORTH'' 0x133,
     Endif,
     Ifndef ''BTN_WEST'',
     Define ''BTN_WEST'' 0x134,
     Endif,
     Ifndef ''BTN_DPAD_LEFT'',
     Define ''BTN_DPAD_LEFT'' 0x222,
     Endif,
     Ifndef ''BTN_DPAD_RIGHT'',
     Define ''BTN_DPAD_RIGHT'' 0x223,
     Endif,
     Ifndef ''BTN_DPAD_UP'',
     Define ''BTN_DPAD_UP'' 0x220,
     Endif,
     Ifndef ''BTN_DPAD_DOWN'',
     Define ''BTN_DPAD_DOWN'' 0x221,
     Endif,
     Ifndef ''ABS_CYMBAL_LEFT'',
     Define ''ABS_CYMBAL_LEFT'' 0x45,
     Endif,
     Ifndef ''ABS_CYMBAL_RIGHT'',
     Define ''ABS_CYMBAL_RIGHT'' 0x46,
     Endif,
     Ifndef ''ABS_TOM_LEFT'',
     Define ''ABS_TOM_LEFT'' 0x41,
     Endif,
     Ifndef ''ABS_TOM_RIGHT'',
     Define ''ABS_TOM_RIGHT'' 0x42,
     Endif,
     Ifndef ''ABS_TOM_FAR_RIGHT'',
     Define ''ABS_TOM_FAR_RIGHT'' 0x43,
     Endif,
     Ifndef ''ABS_BASS'',
     Define ''ABS_BASS'' 0x48,
     Endif,
     Ifndef ''ABS_HI_HAT'',
     Define ''ABS_HI_HAT'' 0x49,
     Endif,
     Ifndef ''BTN_FRET_FAR_UP'',
     Define ''BTN_FRET_FAR_UP'' 0x224,
     Endif,
     Ifndef ''BTN_FRET_UP'',
     Define ''BTN_FRET_UP'' 0x225,
     Endif,
     Ifndef ''BTN_FRET_MID'',
     Define ''BTN_FRET_MID'' 0x226,
     Endif,
     Ifndef ''BTN_FRET_LOW'',
     Define ''BTN_FRET_LOW'' 0x227,
     Endif,
     Ifndef ''BTN_FRET_FAR_LOW'',
     Define ''BTN_FRET_FAR_LOW'' 0x228,
     Endif,
     Ifndef ''BTN_STRUM_BAR_UP'',
     Define ''BTN_STRUM_BAR_UP'' 0x229,
     Endif,
     Ifndef ''BTN_STRUM_BAR_DOWN'',
     Define ''BTN_STRUM_BAR_DOWN'' 0x22a,
     Endif,
     Ifndef ''ABS_WHAMMY_BAR'',
     Define ''ABS_WHAMMY_BAR'' 0x4b,
     Endif,
     Ifndef ''ABS_FRET_BOARD'',
     Define ''ABS_FRET_BOARD'' 0x4a,
     Endif]"

text \<open>The whole file: line 1 includes the platform header, line 2 is empty.\<close>

definition input_defs :: "directive list" where
  "input_defs = Include ''linux/input.h'' # guarded_definitions"

text \<open>The names and literals of the \<^verbatim>\<open>#define\<close> lines of a file, in the file's order.\<close>

fun fallbacks :: "directive list \<Rightarrow> (string \<times> int) list" where
  "fallbacks [] = []"
| "fallbacks (Define n v # ls) = (n, v) # fallbacks ls"
| "fallbacks (l # ls) = fallbacks ls"

section \<open>The constant table of the specification\<close>

text \<open>
  Section 4.1 of the specification lists the symbols and their fallback values. This
  table is written from the specification, row by row, to be compared with the header.
\<close>

definition spec_table :: "(string \<times> int) list" where
  "spec_table =
    [(''BTN_EAST'', 0x131),
     (''BTN_SOUTH'', 0x130),
     (''BTN_NORTH'', 0x133),
     (''BTN_WEST'', 0x134),
     (''BTN_DPAD_LEFT'', 0x222),
     (''BTN_DPAD_RIGHT'', 0x223),
     (''BTN_DPAD_UP'', 0x220),
     (''BTN_DPAD_DOWN'', 0x221),
     (''ABS_CYMBAL_LEFT'', 0x45),
     (''ABS_CYMBAL_RIGHT'', 0x46),
     (''ABS_TOM_LEFT'', 0x41),
     (''ABS_TOM_RIGHT'', 0x42),
     (''ABS_TOM_FAR_RIGHT'', 0x43),
     (''ABS_BASS'', 0x48),
     (''ABS_HI_HAT'', 0x49),
     (''BTN_FRET_FAR_UP'', 0x224),
     (''BTN_FRET_UP'', 0x225),
     (''BTN_FRET_MID'', 0x226),
     (''BTN_FRET_LOW'', 0x227),
     (''BTN_FRET_FAR_LOW'', 0x228),
     (''BTN_STRUM_BAR_UP'', 0x229),
     (''BTN_STRUM_BAR_DOWN'', 0x22a),
     (''ABS_WHAMMY_BAR'', 0x4b),
     (''ABS_FRET_BOARD'', 0x4a)]"

text \<open>The three lines that guard one row of a table.\<close>

fun guard :: "string \<times> int \<Rightarrow> directive list" where
  "guard (n, v) = [Ifndef n, Define n v, Endif]"

text \<open>The macro table that defines each name of a table as the integer of its row.\<close>

definition table_env :: "(string \<times> int) list \<Rightarrow> macro_env" where
  "table_env t = map_option Num \<circ> map_of t"

section \<open>Lines that keep every binding\<close>

text \<open>
  A line that can remove or replace a binding of the macro table is an \<^verbatim>\<open>#undef\<close> or an
  \<^verbatim>\<open>#include\<close> (whose file may hold anything). The other lines keep every binding.
\<close>

fun keeps_bindings :: "directive \<Rightarrow> bool" where
  "keeps_bindings (Include h) = False"
| "keeps_bindings (Undef n) = False"
| "keeps_bindings (Ifndef n) = True"
| "keeps_bindings (Define n v) = True"
| "keeps_bindings Endif = True"

section \<open>The same semantics as a relation\<close>

text \<open>
  The rules of the preprocessor, one per way a line can be processed. A run of a file
  relates a macro table to an outcome; that a file has one outcome only is then a
  theorem about the rules.
\<close>

inductive line_step :: "platform \<Rightarrow> directive \<Rightarrow> pp_state \<Rightarrow> error + pp_state \<Rightarrow> bool"
  for P :: platform
where
  include_skipped:
    "\<not> active (conds s) \<Longrightarrow> line_step P (Include h) s (Inr s)"
| include_fails:
    "active (conds s) \<Longrightarrow> P h (macros s) = Inl err \<Longrightarrow> line_step P (Include h) s (Inl err)"
| include_done:
    "active (conds s) \<Longrightarrow> P h (macros s) = Inr e \<Longrightarrow>
       line_step P (Include h) s (Inr (s\<lparr>macros := e\<rparr>))"
| ifndef_nested_skipped:
    "\<not> active (conds s) \<Longrightarrow> line_step P (Ifndef n) s (Inr (s\<lparr>conds := False # conds s\<rparr>))"
| ifndef_defined:
    "active (conds s) \<Longrightarrow> macros s n = Some w \<Longrightarrow>
       line_step P (Ifndef n) s (Inr (s\<lparr>conds := False # conds s\<rparr>))"
| ifndef_undefined:
    "active (conds s) \<Longrightarrow> macros s n = None \<Longrightarrow>
       line_step P (Ifndef n) s (Inr (s\<lparr>conds := True # conds s\<rparr>))"
| define_skipped:
    "\<not> active (conds s) \<Longrightarrow> line_step P (Define n v) s (Inr s)"
| define_new:
    "active (conds s) \<Longrightarrow> macros s n = None \<Longrightarrow>
       line_step P (Define n v) s (Inr (s\<lparr>macros := (macros s)(n \<mapsto> Num v)\<rparr>))"
| define_same:
    "active (conds s) \<Longrightarrow> macros s n = Some (Num v) \<Longrightarrow> line_step P (Define n v) s (Inr s)"
| define_conflict:
    "active (conds s) \<Longrightarrow> macros s n = Some w \<Longrightarrow> w \<noteq> Num v \<Longrightarrow>
       line_step P (Define n v) s (Inl (Redefined n))"
| undef_skipped:
    "\<not> active (conds s) \<Longrightarrow> line_step P (Undef n) s (Inr s)"
| undef_done:
    "active (conds s) \<Longrightarrow> line_step P (Undef n) s (Inr (s\<lparr>macros := (macros s)(n := None)\<rparr>))"
| endif_stray:
    "conds s = [] \<Longrightarrow> line_step P Endif s (Inl EndifWithoutIf)"
| endif_closes:
    "conds s = b # bs \<Longrightarrow> line_step P Endif s (Inr (s\<lparr>conds := bs\<rparr>))"

inductive lines_run :: "platform \<Rightarrow> directive list \<Rightarrow> pp_state \<Rightarrow> error + pp_state \<Rightarrow> bool"
  for P :: platform
where
  run_end:
    "lines_run P [] s (Inr s)"
| run_error:
    "line_step P l s (Inl err) \<Longrightarrow> lines_run P (l # ls) s (Inl err)"
| run_line:
    "line_step P l s (Inr s') \<Longrightarrow> lines_run P ls s' r \<Longrightarrow> lines_run P (l # ls) s r"

inductive inclusion :: "platform \<Rightarrow> directive list \<Rightarrow> macro_env \<Rightarrow> error + macro_env \<Rightarrow> bool"
  for P :: platform
where
  inclusion_error:
    "lines_run P ls (start e) (Inl err) \<Longrightarrow> inclusion P ls e (Inl err)"
| inclusion_unterminated:
    "lines_run P ls (start e) (Inr s) \<Longrightarrow> conds s \<noteq> [] \<Longrightarrow> inclusion P ls e (Inl UnterminatedIf)"
| inclusion_done:
    "lines_run P ls (start e) (Inr s) \<Longrightarrow> conds s = [] \<Longrightarrow> inclusion P ls e (Inr (macros s))"

section \<open>Platforms for the examples\<close>

text \<open>
  The examples need concrete platforms. \<open>no_headers\<close> has no \<^verbatim>\<open><linux/input.h>\<close> at all.
  On \<open>platform_with ls\<close> the file \<^verbatim>\<open><linux/input.h>\<close> holds the lines \<open>ls\<close> and there is no
  other header. On \<open>sample_platform\<close> it holds two unguarded definitions, \<^verbatim>\<open>EV_KEY\<close> and
  \<^verbatim>\<open>BTN_SOUTH\<close> with the values the Linux kernel gives them.
\<close>

definition no_headers :: platform where
  "no_headers h e = Inl (NoSuchFile h)"

definition sample_linux_input :: "directive list" where
  "sample_linux_input = [Define ''EV_KEY'' 0x01, Define ''BTN_SOUTH'' 0x130]"

definition sample_platform :: platform where
  "sample_platform h e =
     (if h = ''linux/input.h'' then preprocess no_headers sample_linux_input e
      else Inl (NoSuchFile h))"

definition platform_with :: "directive list \<Rightarrow> platform" where
  "platform_with ls h e =
     (if h = ''linux/input.h'' then preprocess no_headers ls e else Inl (NoSuchFile h))"

text \<open>
  A preprocessor may also accept a conflicting \<^verbatim>\<open>#define\<close> with a warning and let it
  replace the earlier definition. \<open>overriding_platform\<close> is the sample platform read by
  such a preprocessor: the two definitions of its \<^verbatim>\<open><linux/input.h>\<close> replace what was
  there.
\<close>

definition overriding_platform :: platform where
  "overriding_platform h e =
     (if h = ''linux/input.h'' then Inr (e ++ [''EV_KEY'' \<mapsto> Num 0x01, ''BTN_SOUTH'' \<mapsto> Num 0x130])
      else Inl (NoSuchFile h))"


section \<open>What a sequence of guarded definitions computes\<close>

lemma process_lines_append:
  "process_lines P (xs @ ys) s =
     (case process_lines P xs s of Inl err \<Rightarrow> Inl err | Inr s' \<Rightarrow> process_lines P ys s')"
  by (induction xs arbitrary: s) (simp_all split: sum.splits)

lemma process_guard:
  "process_lines P (guard (n, v)) s =
     Inr (s\<lparr>macros := (if active (conds s) \<and> macros s n = None
                          then (macros s)(n \<mapsto> Num v) else macros s)\<rparr>)"
  by simp

lemma process_guards:
  assumes "active (conds s)"
  shows "process_lines P (concat (map guard t)) s = Inr (s\<lparr>macros := table_env t ++ macros s\<rparr>)"
  using assms
proof (induction t arbitrary: s)
  case Nil
  then show ?case by (simp add: table_env_def)
next
  case (Cons r t)
  obtain n v where r: "r = (n, v)" by (cases r)
  let ?s1 = "s\<lparr>macros := (if macros s n = None then (macros s)(n \<mapsto> Num v) else macros s)\<rparr>"
  have step: "process_lines P (guard (n, v)) s = Inr ?s1"
    using Cons.prems by (simp only: process_guard) simp
  have act: "active (conds ?s1)" using Cons.prems by simp
  have env: "table_env t ++ macros ?s1 = table_env (r # t) ++ macros s"
    by (rule ext) (auto simp: r table_env_def map_add_def split: option.splits)
  have "process_lines P (concat (map guard (r # t))) s =
          process_lines P (concat (map guard t)) ?s1"
    using step by (simp only: r list.map concat.simps process_lines_append sum.case)
  also have "\<dots> = Inr (?s1\<lparr>macros := table_env t ++ macros ?s1\<rparr>)"
    by (rule Cons.IH [OF act])
  also have "\<dots> = Inr (s\<lparr>macros := table_env (r # t) ++ macros s\<rparr>)"
    by (simp only: env) simp
  finally show ?case .
qed

lemma guarded_definitions_table: "guarded_definitions = concat (map guard spec_table)"
  by (simp add: guarded_definitions_def spec_table_def)

lemma preprocess_guarded_definitions:
  "preprocess P guarded_definitions e = Inr (table_env spec_table ++ e)"
  by (simp add: preprocess_def start_def guarded_definitions_table process_guards)

lemma preprocess_input_defs:
  "preprocess P input_defs e =
     (case P ''linux/input.h'' e of
        Inl err \<Rightarrow> Inl err
      | Inr e0 \<Rightarrow> Inr (table_env spec_table ++ e0))"
proof (cases "P ''linux/input.h'' e")
  case (Inl err)
  then show ?thesis by (simp add: preprocess_def start_def input_defs_def)
next
  case (Inr e0)
  have "process_lines P guarded_definitions \<lparr>macros = e0, conds = []\<rparr> =
          Inr \<lparr>macros = table_env spec_table ++ e0, conds = []\<rparr>"
    by (simp add: guarded_definitions_table process_guards)
  with Inr show ?thesis by (simp add: preprocess_def start_def input_defs_def)
qed

section \<open>The relation and the function agree\<close>

lemma line_step_process_line: "line_step P l s r \<Longrightarrow> process_line P l s = r"
  by (induction rule: line_step.induct) simp_all

lemma process_line_line_step: "line_step P l s (process_line P l s)"
proof (cases l)
  case (Include h)
  then show ?thesis
    by (cases "P h (macros s)") (auto intro: line_step.intros)
next
  case (Ifndef n)
  then show ?thesis
    by (cases "active (conds s)"; cases "macros s n") (auto intro: line_step.intros)
next
  case (Define n v)
  then show ?thesis
    by (cases "macros s n") (auto intro: line_step.intros)
next
  case (Undef n)
  then show ?thesis by (auto intro: line_step.intros)
next
  case Endif
  then show ?thesis
    by (cases "conds s") (auto intro: line_step.intros)
qed

lemma lines_run_process_lines: "lines_run P ls s r \<Longrightarrow> process_lines P ls s = r"
  by (induction rule: lines_run.induct) (simp_all add: line_step_process_line)

lemma process_lines_lines_run: "lines_run P ls s (process_lines P ls s)"
proof (induction ls arbitrary: s)
  case Nil
  show ?case by (simp add: run_end)
next
  case (Cons l ls)
  show ?case
  proof (cases "process_line P l s")
    case (Inl err)
    with process_line_line_step [of P l s] show ?thesis
      by (simp add: run_error)
  next
    case (Inr s')
    with process_line_line_step [of P l s] Cons.IH [of s'] show ?thesis
      by (simp add: run_line)
  qed
qed

lemma inclusion_preprocess: "inclusion P ls e r \<Longrightarrow> preprocess P ls e = r"
  by (induction rule: inclusion.induct)
    (auto simp: preprocess_def dest: lines_run_process_lines)

lemma preprocess_inclusion: "inclusion P ls e (preprocess P ls e)"
proof (cases "process_lines P ls (start e)")
  case (Inl err)
  with process_lines_lines_run [of P ls "start e"] show ?thesis
    by (simp add: preprocess_def inclusion_error)
next
  case (Inr s)
  with process_lines_lines_run [of P ls "start e"] show ?thesis
    by (cases "conds s = []")
      (auto simp: preprocess_def intro: inclusion_done inclusion_unterminated)
qed

section \<open>Every line has one outcome\<close>

lemma line_step_deterministic:
  "line_step P l s r1 \<Longrightarrow> line_step P l s r2 \<Longrightarrow> r1 = r2"
  by (induction rule: line_step.induct) (auto elim: line_step.cases)

lemma lines_run_deterministic:
  "lines_run P ls s r1 \<Longrightarrow> lines_run P ls s r2 \<Longrightarrow> r1 = r2"
proof (induction arbitrary: r2 rule: lines_run.induct)
  case (run_end s)
  then show ?case by (auto elim: lines_run.cases)
next
  case (run_error l s err ls)
  from run_error.prems show ?case
  proof (cases rule: lines_run.cases)
    case (run_error err')
    with run_error.hyps show ?thesis by (auto dest: line_step_deterministic)
  next
    case (run_line s')
    with run_error.hyps show ?thesis by (auto dest: line_step_deterministic)
  qed
next
  case (run_line l s s' ls r)
  from run_line.prems show ?case
  proof (cases rule: lines_run.cases)
    case (run_error err')
    with run_line.hyps show ?thesis by (auto dest: line_step_deterministic)
  next
    case (run_line s'')
    with run_line.hyps(1) have "s'' = s'" by (auto dest: line_step_deterministic)
    with run_line show ?thesis using run_line.IH by simp
  qed
qed

lemma inclusion_deterministic:
  "inclusion P ls e r1 \<Longrightarrow> inclusion P ls e r2 \<Longrightarrow> r1 = r2"
  by (auto elim!: inclusion.cases dest: lines_run_deterministic)

section \<open>The header against the table\<close>

text \<open>
  The macro table that reaches line 3 is the one that the platform header of line 1
  leaves.
\<close>

lemma input_defs_after_line_1:
  "preprocess P input_defs e =
     (case P ''linux/input.h'' e of
        Inl err \<Rightarrow> Inl err
      | Inr e0 \<Rightarrow> preprocess P guarded_definitions e0)"
  by (simp add: preprocess_input_defs preprocess_guarded_definitions split: sum.splits)

lemma length_spec_table: "length spec_table = 24"
  by (simp add: spec_table_def)

lemma distinct_names: "distinct (map fst spec_table)"
  by (simp add: spec_table_def)

lemma distinct_values: "distinct (map snd spec_table)"
  by (simp add: spec_table_def)

lemma fallbacks_guarded_definitions: "fallbacks guarded_definitions = spec_table"
  by (simp add: guarded_definitions_def spec_table_def)

lemma map_of_spec_table: "(n, v) \<in> set spec_table \<Longrightarrow> map_of spec_table n = Some v"
  using distinct_names by (rule map_of_is_SomeI)

lemma table_env_row: "(n, v) \<in> set spec_table \<Longrightarrow> table_env spec_table n = Some (Num v)"
  by (simp add: table_env_def map_of_spec_table)

lemma table_env_outside: "n \<notin> fst ` set t \<Longrightarrow> table_env t n = None"
  by (simp add: table_env_def map_of_eq_None_iff)


lemma after_table: "(table_env t ++ e) n = (case e n of None \<Rightarrow> table_env t n | Some b \<Rightarrow> Some b)"
  by (simp add: map_add_def)

lemma sample_platform_empty:
  "sample_platform ''linux/input.h'' Map.empty =
     Inr [''EV_KEY'' \<mapsto> Num 0x01, ''BTN_SOUTH'' \<mapsto> Num 0x130]"
  by (simp add: sample_platform_def sample_linux_input_def preprocess_def start_def)

lemma sample_platform_fresh:
  assumes "e ''EV_KEY'' = None" and "e ''BTN_SOUTH'' = None"
  shows "sample_platform ''linux/input.h'' e =
           Inr (e(''EV_KEY'' \<mapsto> Num 0x01, ''BTN_SOUTH'' \<mapsto> Num 0x130))"
  using assms
  by (simp add: sample_platform_def sample_linux_input_def preprocess_def start_def)


lemma sample_platform_conflict:
  "sample_platform ''linux/input.h'' [''BTN_SOUTH'' \<mapsto> Num 9] = Inl (Redefined ''BTN_SOUTH'')"
  by (simp add: sample_platform_def sample_linux_input_def preprocess_def start_def)

lemma no_headers_fails:
  "preprocess no_headers input_defs e = Inl (NoSuchFile ''linux/input.h'')"
  by (simp add: preprocess_input_defs no_headers_def)

text \<open>
  The guard is what keeps a definition from failing: the same \<^verbatim>\<open>#define\<close> without its
  \<^verbatim>\<open>#ifndef\<close> is a redefinition conflict when the name has another value.
\<close>

lemma unguarded_define_conflicts:
  "preprocess P [Define ''BTN_EAST'' 0x131] [''BTN_EAST'' \<mapsto> Num 7] = Inl (Redefined ''BTN_EAST'')"
  by (simp add: preprocess_def start_def)

section \<open>Lines that keep every binding, processed\<close>

lemma process_line_keeps:
  assumes "keeps_bindings l" and "process_line P l s = Inr s'"
  shows "macros s \<subseteq>\<^sub>m macros s'"
proof (cases l)
  case (Define n v)
  with assms(2) show ?thesis
    by (auto simp: map_le_def split: if_splits option.splits)
next
  case (Ifndef n)
  with assms(2) show ?thesis by auto
next
  case Endif
  with assms(2) show ?thesis by (auto split: list.splits)
next
  case (Include h)
  with assms(1) show ?thesis by simp
next
  case (Undef n)
  with assms(1) show ?thesis by simp
qed

lemma process_lines_keep:
  "list_all keeps_bindings ls \<Longrightarrow> process_lines P ls s = Inr s' \<Longrightarrow> macros s \<subseteq>\<^sub>m macros s'"
proof (induction ls arbitrary: s)
  case Nil
  then show ?case by simp
next
  case (Cons l ls)
  from Cons.prems(2) obtain t where t: "process_line P l s = Inr t" "process_lines P ls t = Inr s'"
    by (auto split: sum.splits)
  from Cons.prems(1) have l: "keeps_bindings l" and ls: "list_all keeps_bindings ls"
    by simp_all
  from l t(1) have "macros s \<subseteq>\<^sub>m macros t"
    by (rule process_line_keeps)
  moreover from ls t(2) have "macros t \<subseteq>\<^sub>m macros s'"
    by (rule Cons.IH)
  ultimately show ?case by (rule map_le_trans)
qed

lemma process_lines_prefix:
  "process_lines P (xs @ ys) s = Inr s' \<Longrightarrow>
     \<exists>t. process_lines P xs s = Inr t \<and> process_lines P ys t = Inr s'"
  by (simp add: process_lines_append split: sum.splits)

lemma guarded_definitions_keep: "list_all keeps_bindings guarded_definitions"
  by (simp add: guarded_definitions_def)

section \<open>The claims\<close>

text \<open>
  C1, as amended. For each of the 24 symbols of the constant table and every macro
  table in which the symbol is not yet defined: when the platform header included on
  line 1 is processed without error, inclusion of the header succeeds and afterwards
  the symbol is defined. Its value is the fallback value that the table lists for it
  when the platform header left it undefined, and otherwise the body that the platform
  header gave it.
\<close>

theorem fallback_when_undefined:
  assumes "(n, v) \<in> set spec_table" and "e n = None"
    and "P ''linux/input.h'' e = Inr e0"
  shows "\<exists>e'. preprocess P input_defs e = Inr e' \<and>
              e' n = Some (case e0 n of None \<Rightarrow> Num v | Some b \<Rightarrow> b)"
proof -
  from assms(1) have "table_env spec_table n = Some (Num v)"
    by (rule table_env_row)
  then have "(table_env spec_table ++ e0) n = Some (case e0 n of None \<Rightarrow> Num v | Some b \<Rightarrow> b)"
    by (simp add: after_table split: option.splits)
  with assms(3) show ?thesis
    by (simp add: preprocess_input_defs)
qed

theorem fallback_when_undefined_witness:
  "(''ABS_FRET_BOARD'', 0x4a) \<in> set spec_table \<and>
   (Map.empty :: macro_env) ''ABS_FRET_BOARD'' = None \<and>
   (''BTN_SOUTH'', 0x130) \<in> set spec_table \<and>
   (Map.empty :: macro_env) ''BTN_SOUTH'' = None \<and>
   sample_platform ''linux/input.h'' Map.empty =
     Inr [''EV_KEY'' \<mapsto> Num 0x01, ''BTN_SOUTH'' \<mapsto> Num 0x130] \<and>
   (\<exists>e'. preprocess sample_platform input_defs Map.empty = Inr e' \<and>
         e' ''ABS_FRET_BOARD'' = Some (Num 0x4a)) \<and>
   (\<exists>e'. preprocess sample_platform input_defs Map.empty = Inr e' \<and>
         e' ''BTN_SOUTH'' = Some (Num 0x130))"
proof -
  have rows: "(''ABS_FRET_BOARD'', 0x4a) \<in> set spec_table" "(''BTN_SOUTH'', 0x130) \<in> set spec_table"
    by (simp_all add: spec_table_def)
  have undefined_before: "(Map.empty :: macro_env) ''ABS_FRET_BOARD'' = None"
    "(Map.empty :: macro_env) ''BTN_SOUTH'' = None"
    by simp_all
  from fallback_when_undefined
         [where n = "''ABS_FRET_BOARD''" and v = "0x4a" and e = Map.empty
            and P = sample_platform, OF rows(1) undefined_before(1) sample_platform_empty]
  have fret: "\<exists>e'. preprocess sample_platform input_defs Map.empty = Inr e' \<and>
                   e' ''ABS_FRET_BOARD'' = Some (Num 0x4a)"
    by simp
  from fallback_when_undefined
         [where n = "''BTN_SOUTH''" and v = "0x130" and e = Map.empty
            and P = sample_platform, OF rows(2) undefined_before(2) sample_platform_empty]
  have south: "\<exists>e'. preprocess sample_platform input_defs Map.empty = Inr e' \<and>
                    e' ''BTN_SOUTH'' = Some (Num 0x130)"
    by simp
  from rows undefined_before sample_platform_empty fret south show ?thesis
    by blast
qed

text \<open>
  C1 as it is stated fails on line 1. \<^verbatim>\<open>ABS_BASS\<close> is a symbol of the table, with the
  fallback value 0x48, and is undefined in the empty macro table. On a platform without
  \<^verbatim>\<open><linux/input.h>\<close> inclusion of the header fails and defines nothing; on a platform
  whose \<^verbatim>\<open><linux/input.h>\<close> defines \<^verbatim>\<open>ABS_BASS\<close> as 7 it is 7 after the header.
\<close>

theorem undefined_symbol_without_fallback:
  "(''ABS_BASS'', 0x48) \<in> set spec_table \<and>
   (Map.empty :: macro_env) ''ABS_BASS'' = None \<and>
   preprocess no_headers input_defs Map.empty = Inl (NoSuchFile ''linux/input.h'') \<and>
   preprocess (platform_with [Define ''ABS_BASS'' 7]) input_defs Map.empty =
     Inr (table_env spec_table ++ [''ABS_BASS'' \<mapsto> Num 7]) \<and>
   (table_env spec_table ++ [''ABS_BASS'' \<mapsto> Num 7]) ''ABS_BASS'' = Some (Num 7) \<and>
   Num 7 \<noteq> Num 0x48"
proof -
  have "(''ABS_BASS'', 0x48) \<in> set spec_table"
    by (simp add: spec_table_def)
  moreover have "platform_with [Define ''ABS_BASS'' 7] ''linux/input.h'' Map.empty =
                   Inr [''ABS_BASS'' \<mapsto> Num 7]"
    by (simp add: platform_with_def preprocess_def start_def)
  then have "preprocess (platform_with [Define ''ABS_BASS'' 7]) input_defs Map.empty =
               Inr (table_env spec_table ++ [''ABS_BASS'' \<mapsto> Num 7])"
    by (simp add: preprocess_input_defs)
  moreover have "(table_env spec_table ++ [''ABS_BASS'' \<mapsto> Num 7]) ''ABS_BASS'' = Some (Num 7)"
    by (simp add: after_table)
  ultimately show ?thesis
    by (simp add: no_headers_fails)
qed

text \<open>
  C2, as amended. For each of the 24 symbols and every macro table before the header:
  when the platform header included on line 1 is processed without error and the symbol
  is defined, with any body (an integer or not), in the macro table it leaves, then
  inclusion of the header succeeds and the symbol has that same body afterwards. This
  is so in particular when the symbol was defined before inclusion and line 1 kept its
  definition: lines 3 to 74 never override a definition.
\<close>

theorem predefined_value_kept:
  assumes "n \<in> fst ` set spec_table" and "P ''linux/input.h'' e = Inr e0"
    and "e0 n = Some b"
  shows "\<exists>e'. preprocess P input_defs e = Inr e' \<and> e' n = Some b"
proof -
  from assms(3) have "(table_env spec_table ++ e0) n = Some b"
    by (simp add: after_table)
  with assms(2) show ?thesis
    by (simp add: preprocess_input_defs)
qed

theorem predefined_value_kept_witness:
  "''BTN_EAST'' \<in> fst ` set spec_table \<and>
   sample_platform ''linux/input.h'' [''BTN_EAST'' \<mapsto> Tokens ''KEY_X''] =
     Inr [''BTN_EAST'' \<mapsto> Tokens ''KEY_X'', ''EV_KEY'' \<mapsto> Num 0x01, ''BTN_SOUTH'' \<mapsto> Num 0x130] \<and>
   [''BTN_EAST'' \<mapsto> Tokens ''KEY_X'', ''EV_KEY'' \<mapsto> Num 0x01, ''BTN_SOUTH'' \<mapsto> Num 0x130] ''BTN_EAST'' =
     Some (Tokens ''KEY_X'') \<and>
   (\<exists>e'. preprocess sample_platform input_defs [''BTN_EAST'' \<mapsto> Tokens ''KEY_X''] = Inr e' \<and>
         e' ''BTN_EAST'' = Some (Tokens ''KEY_X''))"
proof -
  let ?e0 = "[''BTN_EAST'' \<mapsto> Tokens ''KEY_X'', ''EV_KEY'' \<mapsto> Num 0x01, ''BTN_SOUTH'' \<mapsto> Num 0x130]"
  have name: "''BTN_EAST'' \<in> fst ` set spec_table"
    by (simp add: spec_table_def)
  have line_1: "sample_platform ''linux/input.h'' [''BTN_EAST'' \<mapsto> Tokens ''KEY_X''] = Inr ?e0"
    by (simp add: sample_platform_fresh)
  have defined: "?e0 ''BTN_EAST'' = Some (Tokens ''KEY_X'')"
    by simp
  from predefined_value_kept
         [where n = "''BTN_EAST''" and P = sample_platform
            and e = "[''BTN_EAST'' \<mapsto> Tokens ''KEY_X'']" and ?e0.0 = ?e0
            and b = "Tokens ''KEY_X''", OF name line_1 defined]
       name line_1 defined
  show ?thesis by blast
qed

text \<open>
  C2 as it is stated fails on line 1. \<^verbatim>\<open>BTN_SOUTH\<close> is a symbol of the table; it is defined
  as 9 beforehand. The unguarded definition of \<^verbatim>\<open>BTN_SOUTH\<close> in the sample platform's
  \<^verbatim>\<open><linux/input.h>\<close> then conflicts: inclusion of the header fails, and where the
  preprocessor lets the later definition win, \<^verbatim>\<open>BTN_SOUTH\<close> is 0x130 after the header.
\<close>

theorem predefined_value_lost_on_line_1:
  "''BTN_SOUTH'' \<in> fst ` set spec_table \<and>
   [''BTN_SOUTH'' \<mapsto> Num 9] ''BTN_SOUTH'' = Some (Num 9) \<and>
   preprocess sample_platform input_defs [''BTN_SOUTH'' \<mapsto> Num 9] =
     Inl (Redefined ''BTN_SOUTH'') \<and>
   preprocess overriding_platform input_defs [''BTN_SOUTH'' \<mapsto> Num 9] =
     Inr (table_env spec_table ++
          ([''BTN_SOUTH'' \<mapsto> Num 9] ++ [''EV_KEY'' \<mapsto> Num 0x01, ''BTN_SOUTH'' \<mapsto> Num 0x130])) \<and>
   (table_env spec_table ++
    ([''BTN_SOUTH'' \<mapsto> Num 9] ++ [''EV_KEY'' \<mapsto> Num 0x01, ''BTN_SOUTH'' \<mapsto> Num 0x130]))
      ''BTN_SOUTH'' = Some (Num 0x130) \<and>
   Num 0x130 \<noteq> Num 9"
proof -
  have "''BTN_SOUTH'' \<in> fst ` set spec_table"
    by (simp add: spec_table_def)
  moreover have "preprocess sample_platform input_defs [''BTN_SOUTH'' \<mapsto> Num 9] =
                   Inl (Redefined ''BTN_SOUTH'')"
    by (simp add: preprocess_input_defs sample_platform_conflict)
  moreover have "preprocess overriding_platform input_defs [''BTN_SOUTH'' \<mapsto> Num 9] =
     Inr (table_env spec_table ++
          ([''BTN_SOUTH'' \<mapsto> Num 9] ++ [''EV_KEY'' \<mapsto> Num 0x01, ''BTN_SOUTH'' \<mapsto> Num 0x130]))"
    by (simp add: preprocess_input_defs overriding_platform_def)
  moreover have "(table_env spec_table ++
    ([''BTN_SOUTH'' \<mapsto> Num 9] ++ [''EV_KEY'' \<mapsto> Num 0x01, ''BTN_SOUTH'' \<mapsto> Num 0x130]))
      ''BTN_SOUTH'' = Some (Num 0x130)"
    by (simp add: after_table)
  ultimately show ?thesis by simp
qed




text \<open>
  C4, as amended. Whatever the macro table before the header and whatever the name
  outside the table: after the header the name has exactly the status (undefined, or
  defined with a value) that the platform header included on line 1 left it with. The
  guarded definitions of lines 3 to 74 define, remove and alter no name outside the
  table.
\<close>

theorem names_outside_table_as_platform_left_them:
  assumes "n \<notin> fst ` set spec_table" and "P ''linux/input.h'' e = Inr e0"
  shows "\<exists>e'. preprocess P input_defs e = Inr e' \<and> e' n = e0 n"
proof -
  from assms(1) have "table_env spec_table n = None"
    by (rule table_env_outside)
  then have "(table_env spec_table ++ e0) n = e0 n"
    by (cases "e0 n") (simp_all add: map_add_def)
  with assms(2) show ?thesis
    by (simp add: preprocess_input_defs)
qed

theorem names_outside_table_as_platform_left_them_witness:
  "''KEY_A'' \<notin> fst ` set spec_table \<and>
   sample_platform ''linux/input.h'' Map.empty =
     Inr [''EV_KEY'' \<mapsto> Num 0x01, ''BTN_SOUTH'' \<mapsto> Num 0x130] \<and>
   (\<exists>e'. preprocess sample_platform input_defs Map.empty = Inr e' \<and> e' ''KEY_A'' = None)"
proof -
  have outside: "''KEY_A'' \<notin> fst ` set spec_table"
    by (simp add: spec_table_def)
  from names_outside_table_as_platform_left_them
         [where n = "''KEY_A''" and P = sample_platform and e = Map.empty,
          OF outside sample_platform_empty]
       outside sample_platform_empty
  show ?thesis by simp
qed

text \<open>
  C4 as it is stated fails on line 1. \<^verbatim>\<open>EV_KEY\<close> is not a name of the table and is
  undefined in the empty macro table; on the sample platform, whose \<^verbatim>\<open><linux/input.h>\<close>
  defines it, it is defined after the header.
\<close>

theorem name_outside_table_defined_by_header:
  "''EV_KEY'' \<notin> fst ` set spec_table \<and>
   (Map.empty :: macro_env) ''EV_KEY'' = None \<and>
   preprocess sample_platform input_defs Map.empty =
     Inr (table_env spec_table ++ [''EV_KEY'' \<mapsto> Num 0x01, ''BTN_SOUTH'' \<mapsto> Num 0x130]) \<and>
   (table_env spec_table ++ [''EV_KEY'' \<mapsto> Num 0x01, ''BTN_SOUTH'' \<mapsto> Num 0x130]) ''EV_KEY'' =
     Some (Num 0x01)"
proof -
  have "''EV_KEY'' \<notin> fst ` set spec_table"
    by (simp add: spec_table_def)
  moreover have "preprocess sample_platform input_defs Map.empty =
      Inr (table_env spec_table ++ [''EV_KEY'' \<mapsto> Num 0x01, ''BTN_SOUTH'' \<mapsto> Num 0x130])"
    by (simp add: preprocess_input_defs sample_platform_empty)
  moreover have
    "(table_env spec_table ++ [''EV_KEY'' \<mapsto> Num 0x01, ''BTN_SOUTH'' \<mapsto> Num 0x130]) ''EV_KEY'' =
       Some (Num 0x01)"
    by (simp add: map_add_def)
  ultimately show ?thesis by simp
qed

text \<open>
  C5, as amended. Every \<^verbatim>\<open>#define\<close> of the header stands in a group
  \<^verbatim>\<open>#ifndef N / #define N v / #endif\<close> of its own name, and the guarded definitions of
  lines 3 to 74 never produce a redefinition conflict: whatever the macro table that
  reaches them, they are processed without error. Inclusion of the header fails exactly
  when the platform header included on line 1 fails, and then with that header's error;
  whenever line 1 is processed without error, inclusion of the header succeeds.
\<close>

theorem header_fails_only_on_line_1:
  "guarded_definitions = concat (map guard (fallbacks guarded_definitions)) \<and>
   (\<exists>e'. preprocess P guarded_definitions e = Inr e') \<and>
   (preprocess P input_defs e = Inl err \<longleftrightarrow> P ''linux/input.h'' e = Inl err) \<and>
   (P ''linux/input.h'' e = Inr e0 \<longrightarrow> (\<exists>e'. preprocess P input_defs e = Inr e'))"
proof -
  have guarded: "guarded_definitions = concat (map guard (fallbacks guarded_definitions))"
    by (simp only: fallbacks_guarded_definitions guarded_definitions_table [symmetric])
  show ?thesis
  proof (cases "P ''linux/input.h'' e")
    case (Inl err')
    with guarded show ?thesis
      by (simp add: preprocess_input_defs preprocess_guarded_definitions)
  next
    case (Inr e1)
    with guarded show ?thesis
      by (simp add: preprocess_input_defs preprocess_guarded_definitions)
  qed
qed

theorem header_fails_only_on_line_1_witness:
  "sample_platform ''linux/input.h'' Map.empty =
     Inr [''EV_KEY'' \<mapsto> Num 0x01, ''BTN_SOUTH'' \<mapsto> Num 0x130] \<and>
   (\<exists>e'. preprocess sample_platform input_defs Map.empty = Inr e') \<and>
   sample_platform ''linux/input.h'' [''BTN_SOUTH'' \<mapsto> Num 9] = Inl (Redefined ''BTN_SOUTH'') \<and>
   preprocess sample_platform input_defs [''BTN_SOUTH'' \<mapsto> Num 9] = Inl (Redefined ''BTN_SOUTH'')"
proof -
  from header_fails_only_on_line_1
         [where P = sample_platform and e = Map.empty
            and ?e0.0 = "[''EV_KEY'' \<mapsto> Num 0x01, ''BTN_SOUTH'' \<mapsto> Num 0x130]"]
       sample_platform_empty
  have succeeds: "\<exists>e'. preprocess sample_platform input_defs Map.empty = Inr e'"
    by blast
  from header_fails_only_on_line_1
         [where P = sample_platform and e = "[''BTN_SOUTH'' \<mapsto> Num 9]"
            and err = "Redefined ''BTN_SOUTH''"]
       sample_platform_conflict
  have fails: "preprocess sample_platform input_defs [''BTN_SOUTH'' \<mapsto> Num 9] =
                 Inl (Redefined ''BTN_SOUTH'')"
    by blast
  from succeeds fails sample_platform_empty sample_platform_conflict show ?thesis
    by blast
qed

text \<open>
  C5 as it is stated fails on line 1: inclusion of the header does not always succeed.
  When \<^verbatim>\<open>BTN_SOUTH\<close> is defined as 9 beforehand, the unguarded definition of \<^verbatim>\<open>BTN_SOUTH\<close> in
  the sample platform's \<^verbatim>\<open><linux/input.h>\<close> is a redefinition conflict; and on a platform
  without \<^verbatim>\<open><linux/input.h>\<close> line 1 fails.
\<close>

theorem inclusion_fails_on_line_1:
  "preprocess sample_platform input_defs [''BTN_SOUTH'' \<mapsto> Num 9] =
     Inl (Redefined ''BTN_SOUTH'') \<and>
   preprocess no_headers input_defs Map.empty = Inl (NoSuchFile ''linux/input.h'')"
  by (simp add: preprocess_input_defs sample_platform_conflict no_headers_def)

text \<open>
  C6. The header has no \<^verbatim>\<open>#undef\<close>, and from the end of line 1 on no line of it removes
  or changes a binding: every binding of the macro table after line \<open>1 + i\<close>, whether the
  header made it or met it, is a binding of the macro table after every later line
  \<open>1 + j\<close>, up to the end of the header.
\<close>

theorem bindings_kept_at_every_line:
  assumes "P ''linux/input.h'' e = Inr e0" and "i \<le> j"
  shows "(\<forall>n. Undef n \<notin> set input_defs) \<and>
         (\<exists>si sj. process_lines P (take (Suc i) input_defs) (start e) = Inr si \<and>
                  process_lines P (take (Suc j) input_defs) (start e) = Inr sj \<and>
                  macros si \<subseteq>\<^sub>m macros sj)"
proof -
  let ?s0 = "\<lparr>macros = e0, conds = []\<rparr>"
  let ?g = guarded_definitions
  have after_line_1: "process_lines P (take (Suc k) input_defs) (start e) =
                        process_lines P (take k ?g) ?s0" for k
    using assms(1) by (simp add: input_defs_def start_def)
  have keep: "\<forall>l \<in> set ?g. keeps_bindings l"
    using guarded_definitions_keep by (simp add: list_all_iff)
  have "process_lines P ?g ?s0 = Inr (?s0\<lparr>macros := table_env spec_table ++ macros ?s0\<rparr>)"
    by (simp only: guarded_definitions_table) (rule process_guards, simp)
  then have "process_lines P (take j ?g @ drop j ?g) ?s0 =
               Inr (?s0\<lparr>macros := table_env spec_table ++ macros ?s0\<rparr>)"
    by (simp only: append_take_drop_id)
  then obtain sj where sj: "process_lines P (take j ?g) ?s0 = Inr sj"
    by (blast dest: process_lines_prefix)
  from assms(2) have "take j ?g = take i ?g @ drop i (take j ?g)"
    using append_take_drop_id [of i "take j ?g"] by (simp add: min_def)
  with sj have "process_lines P (take i ?g @ drop i (take j ?g)) ?s0 = Inr sj"
    by simp
  then obtain si where si: "process_lines P (take i ?g) ?s0 = Inr si"
    and rest: "process_lines P (drop i (take j ?g)) si = Inr sj"
    by (blast dest: process_lines_prefix)
  have "list_all keeps_bindings (drop i (take j ?g))"
    using keep by (auto simp: list_all_iff dest: in_set_dropD in_set_takeD)
  from this rest have "macros si \<subseteq>\<^sub>m macros sj"
    by (rule process_lines_keep)
  moreover have "Undef n \<notin> set input_defs" for n
    using keep by (auto simp: input_defs_def)
  ultimately show ?thesis
    using si sj by (simp only: after_line_1) blast
qed

theorem bindings_kept_at_every_line_witness:
  "sample_platform ''linux/input.h'' Map.empty =
     Inr [''EV_KEY'' \<mapsto> Num 0x01, ''BTN_SOUTH'' \<mapsto> Num 0x130] \<and> (2::nat) \<le> 72 \<and>
   (\<exists>si sj. process_lines sample_platform (take 3 input_defs) (start Map.empty) = Inr si \<and>
            process_lines sample_platform (take 73 input_defs) (start Map.empty) = Inr sj \<and>
            macros si \<subseteq>\<^sub>m macros sj)"
proof -
  have le: "(2::nat) \<le> 72" by simp
  from bindings_kept_at_every_line
         [where P = sample_platform and e = Map.empty, OF sample_platform_empty le]
  have "\<exists>si sj. process_lines sample_platform (take (Suc 2) input_defs) (start Map.empty) = Inr si \<and>
            process_lines sample_platform (take (Suc 72) input_defs) (start Map.empty) = Inr sj \<and>
            macros si \<subseteq>\<^sub>m macros sj"
    by blast
  moreover have "Suc 2 = 3" "Suc 72 = 73" by simp_all
  ultimately show ?thesis
    using sample_platform_empty by simp
qed




text \<open>
  C8. The header has 24 \<^verbatim>\<open>#define\<close> lines and their 24 literals are pairwise different;
  so when no symbol is defined beforehand, the macro table after the guarded definitions
  has 24 names and gives no two of them the same value.
\<close>

theorem fallback_values_distinct:
  "length (fallbacks guarded_definitions) = 24 \<and>
   distinct (map snd (fallbacks guarded_definitions)) \<and>
   (\<exists>e'. preprocess P guarded_definitions Map.empty = Inr e' \<and>
         card (dom e') = 24 \<and> inj_on e' (dom e'))"
proof -
  have "inj_on (table_env spec_table) (dom (table_env spec_table))"
  proof (rule inj_onI)
    fix a b
    assume "a \<in> dom (table_env spec_table)" and "b \<in> dom (table_env spec_table)"
      and same: "table_env spec_table a = table_env spec_table b"
    then obtain v where "map_of spec_table a = Some v" and "map_of spec_table b = Some v"
      by (auto simp: table_env_def)
    then have rows: "(a, v) \<in> set spec_table" "(b, v) \<in> set spec_table"
      by (auto dest: map_of_SomeD)
    from distinct_values have "inj_on snd (set spec_table)"
      by (simp add: distinct_map)
    from this _ rows have "(a, v) = (b, v)"
      by (rule inj_onD) simp
    then show "a = b" by simp
  qed
  moreover have "dom (table_env spec_table) = dom (map_of spec_table)"
    by (auto simp: table_env_def)
  then have "card (dom (table_env spec_table)) = 24"
    using distinct_names length_spec_table
    by (simp add: dom_map_of_conv_image_fst distinct_card flip: set_map)
  ultimately show ?thesis
    by (simp add: preprocess_guarded_definitions fallbacks_guarded_definitions
        length_spec_table distinct_values)
qed

text \<open>
  C9. Inclusion of the header is deterministic: on one platform, two runs of the header
  that start from equal macro tables have equal outcomes (the same error, or the same
  macro table).
\<close>

theorem header_inclusion_deterministic:
  assumes "inclusion P input_defs e1 r1" and "inclusion P input_defs e2 r2" and "e1 = e2"
  shows "r1 = r2"
  using assms by (auto dest: inclusion_deterministic)

theorem header_inclusion_deterministic_witness:
  "inclusion sample_platform input_defs Map.empty
     (Inr (table_env spec_table ++ [''EV_KEY'' \<mapsto> Num 0x01, ''BTN_SOUTH'' \<mapsto> Num 0x130])) \<and>
   inclusion sample_platform input_defs Map.empty
     (preprocess sample_platform input_defs Map.empty) \<and>
   Inr (table_env spec_table ++ [''EV_KEY'' \<mapsto> Num 0x01, ''BTN_SOUTH'' \<mapsto> Num 0x130]) =
     preprocess sample_platform input_defs Map.empty"
proof -
  let ?r = "Inr (table_env spec_table ++ [''EV_KEY'' \<mapsto> Num 0x01, ''BTN_SOUTH'' \<mapsto> Num 0x130])"
  have "preprocess sample_platform input_defs Map.empty = ?r"
    by (simp add: preprocess_input_defs sample_platform_empty)
  with preprocess_inclusion [of sample_platform input_defs Map.empty]
  have first: "inclusion sample_platform input_defs Map.empty ?r"
    by simp
  have second: "inclusion sample_platform input_defs Map.empty
                  (preprocess sample_platform input_defs Map.empty)"
    by (rule preprocess_inclusion)
  from header_inclusion_deterministic [OF first second refl] first second
  show ?thesis by simp
qed

end
